theory Spec2Isabelle
  imports Main "HOL-Library.Word" "HOL-Library.Signed_Division" "HOL-Library.Sublist"
begin

section \<open>A shallow embedding of http-server.c\<close>

text \<open>
  The server handles one connection at a time: it reads a request line and the header
  lines from the client, and answers either with a file below the web root or with a page
  built from the replies of the mdb-lookup backend. The embedding keeps the functions of
  the C file (\<open>transmit\<close>, \<open>getStatusMessage\<close>, \<open>sendHttpStatus\<close>,
  \<open>processMdbRequest\<close>, \<open>processFileRequest\<close>, the body of the accept loop of
  \<open>main\<close>) and makes their effects explicit: every call of \<open>send\<close>, \<open>stat\<close>,
  \<open>fopen\<close> and \<open>close\<close> is appended to a trace of events.

  Bytes are \<^typ>\<open>char\<close> (eight bits), byte sequences are \<^typ>\<open>string\<close>. A C string is
  the part of a buffer before its first NUL byte. Messages written to \<open>stderr\<close> are not
  part of the model. An input stream is the finite sequence of bytes that can still be
  read from it; a read at its end returns what \<open>fgets\<close> or \<open>fread\<close> return at the end
  of file (or on a read error). A read that blocks for ever is outside the model, and so
  are the start of the process (the arguments, the listening socket, the connection to
  the backend) and the call of \<open>accept\<close>: the embedding begins where a client is
  connected.
\<close>

subsection \<open>Bytes and C strings\<close>

abbreviation NUL :: char where "NUL \<equiv> CHR 0x00"
abbreviation TAB :: char where "TAB \<equiv> CHR 0x09"
abbreviation LF :: char where "LF \<equiv> CHR 0x0A"
abbreviation CR :: char where "CR \<equiv> CHR 0x0D"

text \<open>What \<open>strlen\<close>, \<open>strcmp\<close>, \<open>strtok\<close> and \<open>send\<close> via \<open>transmit\<close> see of a buffer
  that \<open>fgets\<close> filled: the bytes before the first NUL.\<close>

definition c_str :: "string \<Rightarrow> string" where
  "c_str buf = takeWhile (\<lambda>c. c \<noteq> NUL) buf"

text \<open>\<open>strncmp(s1, s2, n) == 0\<close> on C strings: the first \<open>n\<close> bytes agree (a shorter
  string ends in its NUL, which differs from every byte of the other).\<close>

definition strncmp_eq :: "string \<Rightarrow> string \<Rightarrow> nat \<Rightarrow> bool" where
  "strncmp_eq s1 s2 n = (take n s1 = take n s2)"

text \<open>\<open>strstr(haystack, needle) != NULL\<close>: the needle starts at some position.\<close>

fun strstr :: "string \<Rightarrow> string \<Rightarrow> bool" where
  "strstr [] needle = (needle = [])"
| "strstr (c # cs) needle =
     (take (length needle) (c # cs) = needle \<or> strstr cs needle)"

text \<open>
  \<open>strtok\<close>: skip the leading delimiters; when nothing is left the result is \<open>NULL\<close>
  and the scan stays at the end; otherwise the token runs up to the next delimiter,
  which is overwritten, and the scan continues behind it. The function returns the token
  and the text a later call \<open>strtok(NULL, delimiters)\<close> starts from.
\<close>

definition strtok :: "string \<Rightarrow> string \<Rightarrow> string option \<times> string" where
  "strtok delimiters s =
     (let s' = dropWhile (\<lambda>c. c \<in> set delimiters) s
      in if s' = [] then (None, [])
         else (Some (takeWhile (\<lambda>c. c \<notin> set delimiters) s'),
               drop 1 (dropWhile (\<lambda>c. c \<notin> set delimiters) s')))"

text \<open>
  \<open>fgets(buf, n, stream)\<close>: at most \<open>n - 1\<close> bytes are read, and reading stops
  behind a line feed. At the end of the stream with nothing read the result is \<open>NULL\<close>.
  The result is the buffer's content and the rest of the stream.
\<close>

fun fgets_read :: "nat \<Rightarrow> string \<Rightarrow> string \<times> string" where
  "fgets_read 0 inp = ([], inp)"
| "fgets_read (Suc n) [] = ([], [])"
| "fgets_read (Suc n) (c # cs) =
     (if c = LF then ([c], cs)
      else (c # fst (fgets_read n cs), snd (fgets_read n cs)))"

definition fgets :: "nat \<Rightarrow> string \<Rightarrow> (string \<times> string) option" where
  "fgets n inp = (if inp = [] then None else Some (fgets_read (n - 1) inp))"

text \<open>The conversion \<open>%d\<close> of \<open>sprintf\<close>.\<close>

definition digit_char :: "nat \<Rightarrow> char" where
  "digit_char d = ''0123456789'' ! d"

function dec_of_nat :: "nat \<Rightarrow> string" where
  "dec_of_nat n =
     (if n < 10 then [digit_char n] else dec_of_nat (n div 10) @ [digit_char (n mod 10)])"
  by pat_completeness auto
termination
  by (relation "measure id") auto

declare dec_of_nat.simps [simp del]

definition fmt_d :: "int \<Rightarrow> string" where
  "fmt_d i = (if i < 0 then CHR ''-'' # dec_of_nat (nat (- i)) else dec_of_nat (nat i))"

subsection \<open>The world of the server\<close>

datatype sock = ClientSock | MdbSock

text \<open>
  What one call of \<open>send\<close> does is decided by the peer and the network: it takes the
  whole buffer, a part of it, or fails with \<open>-1\<close>.
\<close>

datatype send_outcome = SendAll | SendPartial nat | SendError

text \<open>\<open>Send s buf r\<close>: \<open>send\<close> was called on socket \<open>s\<close> with the bytes \<open>buf\<close> and
  returned \<open>r\<close>.\<close>

datatype event =
    Send sock string int
  | Stat string
  | Fopen string
  | CloseClient

datatype error = ProcessExit string | OutOfBoundsRead

record world =
  clientIn :: string
  mdbIn :: string
  sendScript :: "send_outcome list"
  statIsDir :: "string \<Rightarrow> bool"
  fopenRb :: "string \<Rightarrow> string option"
  mallocOk :: bool
  events :: "event list"

text \<open>
  \<open>clientIn\<close> and \<open>mdbIn\<close> are the unread bytes of the client connection and of the
  backend connection. \<open>sendScript\<close> gives the outcomes of the coming calls of \<open>send\<close>,
  in order; when it is used up every further call takes its whole buffer.
  \<open>statIsDir p\<close> says that \<open>stat(p)\<close> succeeds and reports a directory; \<open>fopenRb p\<close>
  is the content of the file that \<open>fopen(p, "rb")\<close> opens, or \<open>None\<close> when it fails.
\<close>

definition send_result :: "send_outcome \<Rightarrow> nat \<Rightarrow> int" where
  "send_result out len =
     (case out of SendAll \<Rightarrow> int len | SendPartial k \<Rightarrow> int (min k len) | SendError \<Rightarrow> - 1)"

definition send :: "sock \<Rightarrow> string \<Rightarrow> world \<Rightarrow> int \<times> world" where
  "send s buf w =
     (let out = (case sendScript w of [] \<Rightarrow> SendAll | out # _ \<Rightarrow> out);
          r = send_result out (length buf)
      in (r, w\<lparr>sendScript := drop 1 (sendScript w), events := events w @ [Send s buf r]\<rparr>))"

text \<open>The bytes in \<open>buffer\<close> are those of a C string (no NUL), so \<open>strlen\<close> is the
  length.\<close>

definition transmit :: "sock \<Rightarrow> string \<Rightarrow> world \<Rightarrow> int \<times> world" where
  "transmit s buffer w =
     (let len = length buffer;
          (result, w') = send s buffer w
      in if result \<noteq> int len then (- 1, w') else (result, w'))"

subsection \<open>Status codes and the status response\<close>

definition HttpStatusCodes :: "(int \<times> string) list" where
  "HttpStatusCodes =
    [(200, ''OK''),
     (201, ''Created''),
     (202, ''Accepted''),
     (204, ''No Content''),
     (301, ''Moved Permanently''),
     (302, ''Moved Temporarily''),
     (304, ''Not Modified''),
     (400, ''Bad Request''),
     (401, ''Unauthorized''),
     (403, ''Forbidden''),
     (404, ''Not Found''),
     (500, ''Internal Server Error''),
     (501, ''Not Implemented''),
     (502, ''Bad Gateway''),
     (503, ''Service Unavailable''),
     (0, [])]"

text \<open>The loop of \<open>getStatusMessage\<close> over the table, from the entry it stands at. The
  table ends with an entry of code 0, so the loop never leaves it.\<close>

fun getStatusMessage_from :: "(int \<times> string) list \<Rightarrow> int \<Rightarrow> string" where
  "getStatusMessage_from [] statusCode = ''Unknown Status Code''"
| "getStatusMessage_from ((code, message) # entries) statusCode =
     (if code > 0
      then (if code = statusCode then message else getStatusMessage_from entries statusCode)
      else ''Unknown Status Code'')"

definition getStatusMessage :: "int \<Rightarrow> string" where
  "getStatusMessage statusCode = getStatusMessage_from HttpStatusCodes statusCode"

definition sendHttpStatus :: "int \<Rightarrow> world \<Rightarrow> world" where
  "sendHttpStatus statusCode w =
     (let statusMessage = getStatusMessage statusCode;
          buffer = ''HTTP/1.0 '' @ fmt_d statusCode @ '' '';
          buffer = buffer @ statusMessage;
          buffer = buffer @ [CR, LF];
          buffer = buffer @ [CR, LF];
          buffer =
            (if statusCode \<noteq> 200
             then buffer @ (''<html><body>'' @ [LF] @
                            ''<h1>'' @ fmt_d statusCode @ '' '' @ statusMessage @ ''</h1>'' @ [LF] @
                            ''</body></html>'' @ [LF])
             else buffer)
      in snd (transmit ClientSock buffer w))"

subsection \<open>The backend proxy: \<open>processMdbRequest\<close>\<close>

definition form :: string where
  "form =
     ''<html><body>'' @ [LF] @
     ''<h1>mdb-lookup</h1>'' @ [LF] @
     ''<p>'' @ [LF] @
     ''<form method=GET action=/mdb-lookup>'' @ [LF] @
     ''lookup: <input type=text name=key>'' @ [LF] @
     ''<input type=submit>'' @ [LF] @
     ''</form>'' @ [LF] @
     ''<p>'' @ [LF]"

definition keyURI :: string where
  "keyURI = ''/mdb-lookup?key=''"

definition tableStart :: string where
  "tableStart = ''<p><table border>''"

definition tableEnd :: string where
  "tableEnd = [LF] @ ''</table>'' @ [LF]"

definition pageEnd :: string where
  "pageEnd = ''</body></html>'' @ [LF]"

text \<open>
  The choice of the row's opening tag, \<open>(rowIndex++ % 2) ? ... : ...\<close>. \<open>rowIndex\<close> is
  an \<open>int\<close> of 32 bits; \<open>%\<close> is the remainder of the division that truncates.
  The increment in the loop wraps around in two's complement, as it does on the usual
  targets (the C standard leaves the overflow undefined).
\<close>

definition tableRow :: "32 word \<Rightarrow> string" where
  "tableRow rowIndex =
     (if sint rowIndex smod 2 \<noteq> 0 then [LF] @ ''<tr><td>''
      else [LF] @ ''<tr><td bgcolor=yellow>'')"

text \<open>
  The loop that reads the backend's reply, from \<open>for (;;)\<close> to its end. The result
  \<open>True\<close> is the \<open>break\<close> at the blank line, \<open>False\<close> a \<open>goto cleanup\<close>.
\<close>

function mdbRows :: "32 word \<Rightarrow> world \<Rightarrow> bool \<times> world" where
  "mdbRows rowIndex w =
     (case fgets 1000 (mdbIn w) of
        None \<Rightarrow> (False, w)
      | Some (buf, rest) \<Rightarrow>
          (let w1 = w\<lparr>mdbIn := rest\<rparr>;
               line = c_str buf
           in if line = [LF] then (True, w1)
              else
                (let sent1 = transmit ClientSock (tableRow rowIndex) w1
                 in if fst sent1 < 0 then (False, snd sent1)
                    else
                      (let sent2 = transmit ClientSock line (snd sent1)
                       in if fst sent2 < 0 then (False, snd sent2)
                          else mdbRows (rowIndex + 1) (snd sent2)))))"
  by pat_completeness auto
termination
proof (relation "measure (\<lambda>(rowIndex, w). length (mdbIn w))", goal_cases)
  case 1
  show ?case by simp
next
  case (2 rowIndex w x2 buf rest w1 line sent1 sent2)
  have shorter: "0 < n \<Longrightarrow> inp \<noteq> [] \<Longrightarrow> length (snd (fgets_read n inp)) < length inp"
    for n and inp :: string
  proof (induction n inp rule: fgets_read.induct)
    case (3 n c cs)
    then show ?case
      by (cases n; cases cs) (auto simp: less_Suc_eq)
  qed simp_all
  have "rest = snd (fgets_read 999 (mdbIn w))" and "mdbIn w \<noteq> []"
    using 2 by (auto simp: fgets_def split: if_splits)
  then have "length rest < length (mdbIn w)"
    using shorter [of 999 "mdbIn w"] by simp
  moreover have "mdbIn (snd sent2) = rest"
    using 2 by (simp add: transmit_def send_def Let_def)
  ultimately show ?case by simp
qed

declare mdbRows.simps [simp del]

text \<open>The body of \<open>if (strncmp(requestURI, keyURI, strlen(keyURI)) == 0)\<close>; the result
  \<open>False\<close> is a \<open>goto cleanup\<close>.\<close>

definition mdbLookup :: "string \<Rightarrow> world \<Rightarrow> bool \<times> world" where
  "mdbLookup requestURI w =
     (let key = drop (length keyURI) requestURI;
          sent1 = transmit MdbSock key w
      in if fst sent1 < 0 then (False, snd sent1)
         else
           (let sent2 = transmit MdbSock [LF] (snd sent1)
            in if fst sent2 < 0 then (False, snd sent2)
               else
                 (let sent3 = transmit ClientSock tableStart (snd sent2)
                  in if fst sent3 < 0 then (False, snd sent3)
                     else
                       (let rows = mdbRows 1 (snd sent3)
                        in if \<not> fst rows then (False, snd rows)
                           else
                             (let sent4 = transmit ClientSock tableEnd (snd rows)
                              in if fst sent4 < 0 then (False, snd sent4)
                                 else (True, snd sent4))))))"

definition processMdbRequest :: "string \<Rightarrow> world \<Rightarrow> int \<times> world" where
  "processMdbRequest requestURI w =
     (let statusCode = 200;
          w1 = sendHttpStatus statusCode w;
          sent1 = transmit ClientSock form w1
      in if fst sent1 < 0 then (statusCode, snd sent1)
         else
           (let looked =
                  (if strncmp_eq requestURI keyURI (length keyURI)
                   then mdbLookup requestURI (snd sent1)
                   else (True, snd sent1))
            in if \<not> fst looked then (statusCode, snd looked)
               else (statusCode, snd (transmit ClientSock pageEnd (snd looked)))))"

subsection \<open>The file handler: \<open>processFileRequest\<close>\<close>

definition BUFFER_SIZE :: nat where
  "BUFFER_SIZE = 4096"

text \<open>
  The loop \<open>while ((bytesRead = fread(buffer, 1, sizeof(buffer), file)) > 0)\<close>; the
  argument \<open>file\<close> is what is left to read of the open file.
\<close>

function sendFile :: "string \<Rightarrow> world \<Rightarrow> world" where
  "sendFile file w =
     (let buffer = take BUFFER_SIZE file;
          bytesRead = length buffer
      in if bytesRead > 0
         then (let sent = send ClientSock buffer w
               in if fst sent \<noteq> int bytesRead then snd sent
                  else sendFile (drop BUFFER_SIZE file) (snd sent))
         else w)"
  by pat_completeness auto
termination
  by (relation "measure (\<lambda>(file, w). length file)") (auto simp: BUFFER_SIZE_def)

declare sendFile.simps [simp del]

text \<open>
  Modelled from the spec: \<open>terminate\<close>, which the source calls and does not define.
  The specification (section 7) knows failures that end the process, and the source
  defines \<open>die\<close>, which prints its message and exits: a call of \<open>terminate\<close> is taken
  to end the process with that message.
\<close>

definition terminate :: "string \<Rightarrow> error" where
  "terminate msg = ProcessExit msg"

text \<open>
  When the web root and the URI are both empty, \<open>filePath[strlen(filePath)-1]\<close> reads
  in front of the buffer: the result \<open>Inl OutOfBoundsRead\<close>. (The caller passes a URI
  that begins with \<open>/\<close>.)
\<close>

definition processFileRequest :: "string \<Rightarrow> string \<Rightarrow> world \<Rightarrow> error + (int \<times> world)" where
  "processFileRequest webRoot requestURI w =
     (if \<not> mallocOk w then Inl (terminate ''malloc failed'')
      else
        (let filePath = webRoot @ requestURI
         in if filePath = [] then Inl OutOfBoundsRead
            else
              (let filePath =
                     (if last filePath = CHR ''/'' then filePath @ ''index.html'' else filePath);
                   w1 = w\<lparr>events := events w @ [Stat filePath]\<rparr>
               in if statIsDir w filePath then Inr (403, sendHttpStatus 403 w1)
                  else
                    (let w2 = w1\<lparr>events := events w1 @ [Fopen filePath]\<rparr>
                     in case fopenRb w filePath of
                          None \<Rightarrow> Inr (404, sendHttpStatus 404 w2)
                        | Some file \<Rightarrow> Inr (200, sendFile file (sendHttpStatus 200 w2))))))"

subsection \<open>One connection: the body of the accept loop of \<open>main\<close>\<close>

definition delimiters :: string where
  "delimiters = [TAB, CHR '' '', CR, LF]"

text \<open>The loop that skips the header lines; \<open>False\<close> is the end of the stream before
  the blank line.\<close>

function skipHeaders :: "world \<Rightarrow> bool \<times> world" where
  "skipHeaders w =
     (case fgets 1000 (clientIn w) of
        None \<Rightarrow> (False, w)
      | Some (buf, rest) \<Rightarrow>
          (let w1 = w\<lparr>clientIn := rest\<rparr>;
               line = c_str buf
           in if line = [CR, LF] \<or> line = [LF] then (True, w1) else skipHeaders w1))"
  by pat_completeness auto
termination
proof (relation "measure (\<lambda>w. length (clientIn w))", goal_cases)
  case 1
  show ?case by simp
next
  case (2 w x2 buf rest w1 line)
  have shorter: "0 < n \<Longrightarrow> inp \<noteq> [] \<Longrightarrow> length (snd (fgets_read n inp)) < length inp"
    for n and inp :: string
  proof (induction n inp rule: fgets_read.induct)
    case (3 n c cs)
    then show ?case
      by (cases n; cases cs) (auto simp: less_Suc_eq)
  qed simp_all
  have "rest = snd (fgets_read 999 (clientIn w))" and "clientIn w \<noteq> []"
    using 2 by (auto simp: fgets_def split: if_splits)
  then have "length rest < length (clientIn w)"
    using shorter [of 999 "clientIn w"] by simp
  with 2 show ?case by simp
qed

declare skipHeaders.simps [simp del]

text \<open>The label \<open>loop_end\<close>: the connection is closed.\<close>

definition loop_end :: "world \<Rightarrow> world" where
  "loop_end w = w\<lparr>events := events w @ [CloseClient]\<rparr>"

definition mdbRequestURI :: string where
  "mdbRequestURI = ''/mdb-lookup''"

text \<open>The part under the comment "Now handle the request".\<close>

definition routeRequest :: "string \<Rightarrow> string \<Rightarrow> world \<Rightarrow> error + (int \<times> world)" where
  "routeRequest rootDirectory uri w =
     (if strncmp_eq uri mdbRequestURI (length mdbRequestURI)
      then Inr (processMdbRequest uri w)
      else processFileRequest rootDirectory uri w)"

text \<open>The test for a directory traversal.\<close>

definition traversal :: "string \<Rightarrow> bool" where
  "traversal uri =
     (let len = length uri
      in len \<ge> 3 \<and> (drop (len - 3) uri = ''/..'' \<or> strstr uri ''/../''))"

text \<open>
  From \<open>accept\<close> to \<open>loop_end\<close>. The result is the value of \<open>statusCode\<close> and the world
  at the end of the iteration, or the end of the process.
\<close>

definition handleConnection :: "string \<Rightarrow> world \<Rightarrow> error + (int \<times> world)" where
  "handleConnection rootDirectory w0 =
     (case fgets 1000 (clientIn w0) of
        None \<Rightarrow> Inr (400, loop_end w0)
      | Some (buf, rest) \<Rightarrow>
          (let w = w0\<lparr>clientIn := rest\<rparr>;
               request = c_str buf;
               tok1 = strtok delimiters request;
               tok2 = strtok delimiters (snd tok1);
               tok3 = strtok delimiters (snd tok2);
               tok4 = strtok delimiters (snd tok3)
           in case (fst tok1, fst tok2, fst tok3, fst tok4) of
                (Some httpMethod, Some uri, Some version, None) \<Rightarrow>
                  if httpMethod \<noteq> ''GET''
                  then Inr (501, loop_end (sendHttpStatus 501 w))
                  else if version \<noteq> ''HTTP/1.0'' \<and> version \<noteq> ''HTTP/1.1''
                  then Inr (501, loop_end (sendHttpStatus 501 w))
                  else if (case uri of [] \<Rightarrow> True | c # _ \<Rightarrow> c \<noteq> CHR ''/'')
                  then Inr (400, loop_end (sendHttpStatus 400 w))
                  else if traversal uri
                  then Inr (400, loop_end (sendHttpStatus 400 w))
                  else
                    (let skipped = skipHeaders w
                     in if \<not> fst skipped then Inr (400, loop_end (snd skipped))
                        else
                          (case routeRequest rootDirectory uri (snd skipped) of
                             Inl e \<Rightarrow> Inl e
                           | Inr (statusCode, w') \<Rightarrow> Inr (statusCode, loop_end w')))
              | _ \<Rightarrow> Inr (501, loop_end (sendHttpStatus 501 w))))"

subsection \<open>Reading the trace\<close>

text \<open>The status response as the specification describes it: the status line with the
  version \<open>HTTP/1.0\<close>, the blank line, and for every code but 200 the HTML body.\<close>

definition statusResponse :: "int \<Rightarrow> string" where
  "statusResponse code =
     ''HTTP/1.0 '' @ fmt_d code @ '' '' @ getStatusMessage code @ [CR, LF] @
     [CR, LF] @
     (if code = 200 then []
      else ''<html><body>'' @ [LF] @
           ''<h1>'' @ fmt_d code @ '' '' @ getStatusMessage code @ ''</h1>'' @ [LF] @
           ''</body></html>'' @ [LF])"

text \<open>The result of the call of \<open>send\<close> that comes after \<open>k\<close> others in a world,
  for a buffer of a given length.\<close>

definition sendResultAt :: "world \<Rightarrow> nat \<Rightarrow> nat \<Rightarrow> int" where
  "sendResultAt w k len =
     send_result (case drop k (sendScript w) of [] \<Rightarrow> SendAll | out # _ \<Rightarrow> out) len"

text \<open>The bytes that a socket took, over a trace.\<close>

fun delivered :: "sock \<Rightarrow> event list \<Rightarrow> string" where
  "delivered s [] = []"
| "delivered s (Send s' buf r # es) =
     (if s' = s \<and> 0 < r then take (nat r) buf @ delivered s es else delivered s es)"
| "delivered s (Stat p # es) = delivered s es"
| "delivered s (Fopen p # es) = delivered s es"
| "delivered s (CloseClient # es) = delivered s es"

text \<open>The buffers handed to \<open>send\<close> on a socket, over a trace.\<close>

fun sentTo :: "sock \<Rightarrow> event list \<Rightarrow> string list" where
  "sentTo s [] = []"
| "sentTo s (Send s' buf r # es) = (if s' = s then buf # sentTo s es else sentTo s es)"
| "sentTo s (Stat p # es) = sentTo s es"
| "sentTo s (Fopen p # es) = sentTo s es"
| "sentTo s (CloseClient # es) = sentTo s es"

fun isClientSend :: "event \<Rightarrow> bool" where
  "isClientSend (Send s buf r) = (s = ClientSock)"
| "isClientSend (Stat p) = False"
| "isClientSend (Fopen p) = False"
| "isClientSend CloseClient = False"

text \<open>No coming call of \<open>send\<close> fails or stops short.\<close>

definition sendsOk :: "world \<Rightarrow> bool" where
  "sendsOk w = list_all (\<lambda>out. out = SendAll) (sendScript w)"

text \<open>
  The table rows as the specification describes them: one row for each reply line, in
  the order of the lines; the rows at odd positions (counted from 1) open with
  \<open><tr><td>\<close>, those at even positions with \<open><tr><td bgcolor=yellow>\<close>. The text of a
  row is the line with its line feed, as a C string.
\<close>

fun renderRows :: "nat \<Rightarrow> string list \<Rightarrow> string" where
  "renderRows i [] = []"
| "renderRows i (l # ls) =
     [LF] @ (if odd i then ''<tr><td>'' else ''<tr><td bgcolor=yellow>'') @
     c_str (l @ [LF]) @ renderRows (Suc i) ls"

text \<open>
  The request line split on whitespace, as the specification says it: the maximal runs of
  bytes that are none of tab, space, CR and LF (the delimiters of the source), in their
  order. \<open>splitTokens ds cur s\<close> scans \<open>s\<close> with the token \<open>cur\<close> begun.
\<close>

fun splitTokens :: "string \<Rightarrow> string \<Rightarrow> string \<Rightarrow> string list" where
  "splitTokens ds cur [] = (if cur = [] then [] else [cur])"
| "splitTokens ds cur (c # cs) =
     (if c \<in> set ds then (if cur = [] then [] else [cur]) @ splitTokens ds [] cs
      else splitTokens ds (cur @ [c]) cs)"

definition tokens :: "string \<Rightarrow> string list" where
  "tokens s = splitTokens delimiters [] s"


text \<open>What one connection comes to: the value of \<open>statusCode\<close> and the trace.\<close>

definition outcome :: "error + (int \<times> world) \<Rightarrow> (int \<times> event list) option" where
  "outcome r = (case r of Inl e \<Rightarrow> None | Inr (code, w) \<Rightarrow> Some (code, events w))"

subsection \<open>Worlds for the examples\<close>

text \<open>A world in which only the backend has something to say.\<close>

definition backendWorld :: "string \<Rightarrow> send_outcome list \<Rightarrow> world" where
  "backendWorld reply script =
     \<lparr>clientIn = [], mdbIn = reply, sendScript = script,
      statIsDir = (\<lambda>p. False), fopenRb = (\<lambda>p. None), mallocOk = True, events = []\<rparr>"

text \<open>A world with one directory, \<open>/www/pub\<close>, and one file that can be opened.\<close>

definition fileWorld :: "string \<Rightarrow> string \<Rightarrow> string \<Rightarrow> send_outcome list \<Rightarrow> world" where
  "fileWorld request path contents script =
     \<lparr>clientIn = request, mdbIn = [], sendScript = script,
      statIsDir = (\<lambda>p. p = ''/www/pub''),
      fopenRb = (\<lambda>p. if p = path then Some contents else None),
      mallocOk = True, events = []\<rparr>"

section \<open>Properties\<close>

subsection \<open>The response writer\<close>

lemma send_inputs [simp]:
  "mdbIn (snd (send s buf w)) = mdbIn w"
  "clientIn (snd (send s buf w)) = clientIn w"
  by (simp_all add: send_def Let_def)

lemma transmit_inputs [simp]:
  "mdbIn (snd (transmit s buf w)) = mdbIn w"
  "clientIn (snd (transmit s buf w)) = clientIn w"
  by (simp_all add: transmit_def Let_def split: prod.splits)
    (metis send_inputs snd_conv)+

lemma send_events:
  "events (snd (send s buf w)) = events w @ [Send s buf (sendResultAt w 0 (length buf))]"
  by (simp add: send_def sendResultAt_def Let_def)

lemma transmit_events:
  "events (snd (transmit s buf w)) = events w @ [Send s buf (sendResultAt w 0 (length buf))]"
  by (simp add: transmit_def send_def sendResultAt_def Let_def)

lemma sendHttpStatus_events:
  "events (sendHttpStatus code w) =
     events w @ [Send ClientSock (statusResponse code)
                   (sendResultAt w 0 (length (statusResponse code)))]"
  by (simp add: sendHttpStatus_def statusResponse_def transmit_events Let_def)

text \<open>The response for a code of the table, and for one that is not in it.\<close>

lemma statusResponse_404:
  "statusResponse 404 =
     ''HTTP/1.0 404 Not Found'' @ [CR, LF, CR, LF] @
     ''<html><body>'' @ [LF] @ ''<h1>404 Not Found</h1>'' @ [LF] @ ''</body></html>'' @ [LF]"
  by (simp add: statusResponse_def fmt_d_def dec_of_nat.simps digit_char_def
      getStatusMessage_def HttpStatusCodes_def)

lemma statusResponse_negative:
  "statusResponse (- 7) =
     ''HTTP/1.0 -7 Unknown Status Code'' @ [CR, LF, CR, LF] @
     ''<html><body>'' @ [LF] @ ''<h1>-7 Unknown Status Code</h1>'' @ [LF] @
     ''</body></html>'' @ [LF]"
  by (simp add: statusResponse_def fmt_d_def dec_of_nat.simps digit_char_def
      getStatusMessage_def HttpStatusCodes_def)

text \<open>
  Claim C4. Whatever the status code, \<open>sendHttpStatus\<close> calls \<open>send\<close> once, on the
  client socket, and the bytes it hands over are the status line
  \<open>HTTP/1.0 <code> <reason phrase>\<close>, CR LF, a blank line (CR LF), and then the HTML
  body with the code and the reason phrase when the code is not 200, and nothing when the
  code is 200. The version in the status line is the constant \<open>HTTP/1.0\<close>: the
  function does not know the version of the request.
\<close>

theorem sendHttpStatus_bytes:
  "events (sendHttpStatus statusCode w) =
     events w @
     [Send ClientSock
        (''HTTP/1.0 '' @ fmt_d statusCode @ '' '' @ getStatusMessage statusCode @ [CR, LF] @
         [CR, LF] @
         (if statusCode = 200 then []
          else ''<html><body>'' @ [LF] @
               ''<h1>'' @ fmt_d statusCode @ '' '' @ getStatusMessage statusCode @
               ''</h1>'' @ [LF] @
               ''</body></html>'' @ [LF]))
        (sendResultAt w 0 (length (statusResponse statusCode)))]"
  by (simp add: sendHttpStatus_def statusResponse_def transmit_events Let_def)

subsection \<open>The rows of the reply\<close>

lemma smod2: "((k::int) smod 2 \<noteq> 0) = odd k"
  unfolding signed_modulo_int_def sgn_if abs_if by presburger

lemma even_sint32: "even (sint (w::32 word)) = even w"
  using bit_sint_iff [of w 0] by (simp add: bit_0)

lemma tableRow_of_nat:
  "tableRow (of_nat i) = [LF] @ (if odd i then ''<tr><td>'' else ''<tr><td bgcolor=yellow>'')"
  by (simp add: tableRow_def smod2 even_sint32)

lemma fgets_read_line:
  "LF \<notin> set l \<Longrightarrow> length l < n \<Longrightarrow> fgets_read n (l @ LF # rest) = (l @ [LF], rest)"
proof (induction l arbitrary: n)
  case Nil
  then show ?case by (cases n) auto
next
  case (Cons c l)
  then show ?case by (cases n) auto
qed

lemma fgets_read_full:
  "LF \<notin> set l \<Longrightarrow> fgets_read (length l) (l @ rest) = (l, rest)"
  by (induction l) auto

lemma fgets_line:
  "LF \<notin> set l \<Longrightarrow> Suc (length l) < n \<Longrightarrow> fgets n (l @ LF # rest) = Some (l @ [LF], rest)"
  by (simp add: fgets_def fgets_read_line)

lemma c_str_line_not_blank:
  "l \<noteq> [] \<Longrightarrow> LF \<notin> set l \<Longrightarrow> c_str (l @ [LF]) \<noteq> [LF]"
  by (cases l) (auto simp: c_str_def)

lemma delivered_append [simp]:
  "delivered s (es @ es') = delivered s es @ delivered s es'"
  by (induction s es rule: delivered.induct) simp_all

lemma send_ok:
  "sendsOk w \<Longrightarrow>
     send s buf w =
       (int (length buf),
        w\<lparr>sendScript := drop 1 (sendScript w),
          events := events w @ [Send s buf (int (length buf))]\<rparr>)"
  by (cases "sendScript w") (simp_all add: send_def sendsOk_def send_result_def Let_def)

lemma sendsOk_drop:
  "sendsOk w \<Longrightarrow> sendsOk (w\<lparr>sendScript := drop n (sendScript w), events := es\<rparr>)"
  by (simp add: sendsOk_def list_all_iff) (meson in_set_dropD)

lemma transmit_ok:
  "sendsOk w \<Longrightarrow>
     transmit s buf w =
       (int (length buf),
        w\<lparr>sendScript := drop 1 (sendScript w),
          events := events w @ [Send s buf (int (length buf))]\<rparr>)"
  by (simp add: transmit_def send_ok)

lemma transmit_ok_facts:
  assumes "sendsOk w"
  shows "fst (transmit s buf w) = int (length buf)"
    and "sendsOk (snd (transmit s buf w))"
    and "events (snd (transmit s buf w)) = events w @ [Send s buf (int (length buf))]"
    and "mdbIn (snd (transmit s buf w)) = mdbIn w"
  using assms by (simp_all add: transmit_ok sendsOk_drop)

lemma sendsOk_mdbIn [simp]: "sendsOk (w\<lparr>mdbIn := x\<rparr>) = sendsOk w"
  by (simp add: sendsOk_def)

lemma mdbRows_reply:
  assumes "sendsOk w"
    and "list_all (\<lambda>l. l \<noteq> [] \<and> LF \<notin> set l \<and> length l \<le> 998) ls"
    and "mdbIn w = concat (map (\<lambda>l. l @ [LF]) ls) @ [LF] @ rest"
  shows "fst (mdbRows (of_nat i) w) \<and>
         mdbIn (snd (mdbRows (of_nat i) w)) = rest \<and>
         sendsOk (snd (mdbRows (of_nat i) w)) \<and>
         delivered ClientSock (events (snd (mdbRows (of_nat i) w))) =
           delivered ClientSock (events w) @ renderRows i ls \<and>
         delivered MdbSock (events (snd (mdbRows (of_nat i) w))) =
           delivered MdbSock (events w)"
  using assms
proof (induction ls arbitrary: i w)
  case Nil
  then have "fgets 1000 (mdbIn w) = Some ([LF], rest)"
    using fgets_line [of "[]" 1000 rest] by simp
  then have "mdbRows (of_nat i) w = (True, w\<lparr>mdbIn := rest\<rparr>)"
    by (subst mdbRows.simps) (simp add: c_str_def)
  then show ?case
    using Nil by simp
next
  case (Cons l ls)
  define rest' where "rest' = concat (map (\<lambda>l. l @ [LF]) ls) @ [LF] @ rest"
  define row where "row = tableRow (of_nat i)"
  define line where "line = c_str (l @ [LF])"
  have l: "l \<noteq> []" "LF \<notin> set l" "length l \<le> 998"
    using Cons.prems(2) by simp_all
  have "mdbIn w = l @ LF # rest'"
    using Cons.prems(3) by (simp add: rest'_def)
  then have fg: "fgets 1000 (mdbIn w) = Some (l @ [LF], rest')"
    using l by (simp add: fgets_line)
  have nb: "line \<noteq> [LF]"
    unfolding line_def using l(1,2) by (rule c_str_line_not_blank)
  define w1 where "w1 = w\<lparr>mdbIn := rest'\<rparr>"
  define w2 where "w2 = snd (transmit ClientSock row w1)"
  define w3 where "w3 = snd (transmit ClientSock line w2)"
  have ok1: "sendsOk w1" using Cons.prems(1) by (simp add: w1_def)
  have ok2: "sendsOk w2" unfolding w2_def using ok1 by (rule transmit_ok_facts)
  have ok3: "sendsOk w3" unfolding w3_def using ok2 by (rule transmit_ok_facts)
  have f1: "fst (transmit ClientSock row w1) = int (length row)"
    using ok1 by (rule transmit_ok_facts)
  have f2: "fst (transmit ClientSock line w2) = int (length line)"
    using ok2 by (rule transmit_ok_facts)
  have in3: "mdbIn w3 = rest'"
    by (simp add: w3_def w2_def w1_def)
  have ev2: "events w2 = events w @ [Send ClientSock row (int (length row))]"
    using transmit_ok_facts(3) [OF ok1] by (simp add: w2_def w1_def)
  have ev3: "events w3 = events w2 @ [Send ClientSock line (int (length line))]"
    unfolding w3_def using ok2 by (rule transmit_ok_facts)
  have step: "mdbRows (of_nat i) w = mdbRows (of_nat (Suc i)) w3"
    by (subst mdbRows.simps)
      (simp add: fg Let_def nb f1 f2 add.commute flip: line_def row_def w1_def w2_def w3_def)
  have IH: "fst (mdbRows (of_nat (Suc i)) w3) \<and>
         mdbIn (snd (mdbRows (of_nat (Suc i)) w3)) = rest \<and>
         sendsOk (snd (mdbRows (of_nat (Suc i)) w3)) \<and>
         delivered ClientSock (events (snd (mdbRows (of_nat (Suc i)) w3))) =
           delivered ClientSock (events w3) @ renderRows (Suc i) ls \<and>
         delivered MdbSock (events (snd (mdbRows (of_nat (Suc i)) w3))) =
           delivered MdbSock (events w3)"
    using Cons.prems(2) by (intro Cons.IH [OF ok3]) (simp_all add: in3 rest'_def)
  show ?case
    unfolding step using IH
    by (simp add: ev3 ev2 row_def line_def tableRow_of_nat)
qed

lemma c_str_id: "NUL \<notin> set l \<Longrightarrow> c_str l = l"
  by (auto simp: c_str_def)

lemma c_str_replicate: "c \<noteq> NUL \<Longrightarrow> c_str (replicate n c) = replicate n c"
  by (simp add: c_str_def takeWhile_replicate)

lemma fgets_full_buffer:
  "LF \<notin> set l \<Longrightarrow> length l = n \<Longrightarrow> l \<noteq> [] \<Longrightarrow> fgets (Suc n) (l @ rest) = Some (l, rest)"
  using fgets_read_full [of l rest] by (auto simp: fgets_def)

text \<open>
  Claim C9, as amended. Let the backend's reply be a sequence of lines, none of them blank
  and each of at most 998 bytes before its line feed (so that the line and its line feed
  fit the buffer of 1000 bytes), followed by a blank line, and let the writes to the
  client succeed. Then the loop reads the reply up to and including the blank line and
  leaves what follows unread, and it sends one table row for each line, in the order of
  the lines: the rows at the odd positions 1, 3, ... open with \<open><tr><td>\<close>, those at the
  even positions with \<open><tr><td bgcolor=yellow>\<close>. The counter \<open>rowIndex\<close> is a word of
  32 bits here, so the alternation also holds when it wraps around.
\<close>

theorem mdbRows_renders_reply:
  assumes "sendsOk w"
    and "list_all (\<lambda>l. l \<noteq> [] \<and> LF \<notin> set l \<and> length l \<le> 998) ls"
    and "mdbIn w = concat (map (\<lambda>l. l @ [LF]) ls) @ [LF] @ rest"
  shows "fst (mdbRows 1 w) \<and>
         mdbIn (snd (mdbRows 1 w)) = rest \<and>
         delivered ClientSock (events (snd (mdbRows 1 w))) =
           delivered ClientSock (events w) @ renderRows 1 ls"
  using mdbRows_reply [OF assms, of 1] by simp

theorem mdbRows_renders_reply_witness:
  "fst (mdbRows 1 (backendWorld (''al'' @ [LF] @ ''bo'' @ [LF] @ ''cy'' @ [LF] @ [LF] @ ''x'') [])) \<and>
   mdbIn (snd (mdbRows 1 (backendWorld (''al'' @ [LF] @ ''bo'' @ [LF] @ ''cy'' @ [LF] @ [LF] @ ''x'') []))) = ''x'' \<and>
   delivered ClientSock
     (events (snd (mdbRows 1 (backendWorld (''al'' @ [LF] @ ''bo'' @ [LF] @ ''cy'' @ [LF] @ [LF] @ ''x'') [])))) =
     [LF] @ ''<tr><td>al'' @ [LF] @
     [LF] @ ''<tr><td bgcolor=yellow>bo'' @ [LF] @
     [LF] @ ''<tr><td>cy'' @ [LF]"
  using mdbRows_renders_reply
    [of "backendWorld (''al'' @ [LF] @ ''bo'' @ [LF] @ ''cy'' @ [LF] @ [LF] @ ''x'') []"
        "[''al'', ''bo'', ''cy'']" "''x''"]
  by (simp add: backendWorld_def sendsOk_def c_str_def)

text \<open>
  The claim as stated speaks of every sequence of reply lines. A line of 999 bytes does
  not fit the buffer with its line feed: \<open>fgets\<close> returns the 999 bytes, and the next
  call returns the line feed alone, which the loop takes for the blank line. The row has
  no line feed, the loop ends, and the second line of the reply and the blank line after
  it stay unread on the backend connection.
\<close>

theorem long_reply_line_counterexample:
  "mdbIn (snd (mdbRows 1 (backendWorld (replicate 999 (CHR ''a'') @ [LF] @ ''b'' @ [LF] @ [LF]) []))) =
     ''b'' @ [LF] @ [LF] \<and>
   delivered ClientSock
     (events (snd (mdbRows 1 (backendWorld (replicate 999 (CHR ''a'') @ [LF] @ ''b'' @ [LF] @ [LF]) [])))) =
     [LF] @ ''<tr><td>'' @ replicate 999 (CHR ''a'') \<and>
   delivered ClientSock
     (events (snd (mdbRows 1 (backendWorld (replicate 999 (CHR ''a'') @ [LF] @ ''b'' @ [LF] @ [LF]) [])))) \<noteq>
     renderRows 1 [replicate 999 (CHR ''a''), ''b'']"
proof -
  define long where "long = replicate 999 (CHR ''a'')"
  define rest' where "rest' = [LF] @ ''b'' @ [LF] @ [LF]"
  define w where "w = backendWorld (long @ rest') []"
  define w1 where "w1 = w\<lparr>mdbIn := rest'\<rparr>"
  define w2 where "w2 = snd (transmit ClientSock (tableRow 1) w1)"
  define w3 where "w3 = snd (transmit ClientSock long w2)"
  have "length long \<noteq> length [LF]"
    by (simp add: long_def)
  then have notLF: "long \<noteq> [LF]"
    by metis
  have long: "LF \<notin> set long" "length long = 999" "long \<noteq> []" "c_str long = long"
    by (auto simp: long_def c_str_replicate)
  have fg: "fgets 1000 (mdbIn w) = Some (long, rest')"
    using fgets_full_buffer [OF long(1,2,3), of rest']
    by (simp add: w_def backendWorld_def)
  have ok1: "sendsOk w1" by (simp add: w1_def w_def backendWorld_def sendsOk_def)
  have ok2: "sendsOk w2" unfolding w2_def using ok1 by (rule transmit_ok_facts)
  have f1: "\<not> fst (transmit ClientSock (tableRow 1) w1) < 0"
    using transmit_ok_facts(1) [OF ok1] by simp
  have f2: "\<not> fst (transmit ClientSock long w2) < 0"
    using transmit_ok_facts(1) [OF ok2] by simp
  have step1: "mdbRows 1 w = mdbRows 2 w3"
    by (subst mdbRows.simps)
      (simp add: fg Let_def long notLF f1 f2 flip: w1_def w2_def w3_def)
  have in3: "mdbIn w3 = rest'"
    by (simp add: w3_def w2_def w1_def)
  have fg3: "fgets 1000 (mdbIn w3) = Some ([LF], ''b'' @ [LF] @ [LF])"
    using fgets_line [of "[]" 1000 "''b'' @ [LF] @ [LF]"] by (simp add: in3 rest'_def)
  have step2: "mdbRows 2 w3 = (True, w3\<lparr>mdbIn := ''b'' @ [LF] @ [LF]\<rparr>)"
    by (subst mdbRows.simps) (simp add: fg3 c_str_def)
  have ev: "events w3 = [Send ClientSock (tableRow 1) (int (length (tableRow 1))),
      Send ClientSock long 999]"
    using transmit_ok_facts(3) [OF ok1, of ClientSock "tableRow 1"]
      transmit_ok_facts(3) [OF ok2, of ClientSock long]
    by (simp add: w3_def w2_def w1_def w_def backendWorld_def long(2))
  have row: "tableRow 1 = [LF] @ ''<tr><td>''"
    using tableRow_of_nat [of 1] by simp
  have del: "delivered ClientSock (events w3) = [LF] @ ''<tr><td>'' @ long"
    by (simp add: ev row long(2))
  have "c_str (long @ [LF]) = long @ [LF]"
    by (rule c_str_id) (simp add: long_def)
  then have "length (delivered ClientSock (events w3)) \<noteq> length (renderRows 1 [long, ''b''])"
    by (simp add: del long c_str_def)
  then have "delivered ClientSock (events w3) \<noteq> renderRows 1 [long, ''b'']"
    by metis
  then show ?thesis
    unfolding long_def [symmetric]
    using step1 step2 del by (simp add: w_def rest'_def)
qed

subsection \<open>The backend proxy\<close>

lemma sentTo_append [simp]: "sentTo s (es @ es') = sentTo s es @ sentTo s es'"
  by (induction s es rule: sentTo.induct) simp_all

lemma clientSends_silent:
  "list_all isClientSend es \<Longrightarrow> sentTo MdbSock es = [] \<and> delivered MdbSock es = []"
  by (induction MdbSock es rule: sentTo.induct) simp_all

lemma mdbRows_client_only:
  "\<exists>es. events (snd (mdbRows rowIndex w)) = events w @ es \<and> list_all isClientSend es"
proof (induction rowIndex w rule: mdbRows.induct)
  case (1 rowIndex w)
  show ?case
  proof (cases "fgets 1000 (mdbIn w)")
    case None
    then show ?thesis by (subst mdbRows.simps) simp
  next
    case (Some a)
    obtain buf rest where a: "a = (buf, rest)" by (cases a)
    define w1 where "w1 = w\<lparr>mdbIn := rest\<rparr>"
    define line where "line = c_str buf"
    define sent1 where "sent1 = transmit ClientSock (tableRow rowIndex) w1"
    define sent2 where "sent2 = transmit ClientSock line (snd sent1)"
    have ev1: "events (snd sent1) = events w @ [Send ClientSock (tableRow rowIndex) (sendResultAt w1 0 (length (tableRow rowIndex)))]"
      by (simp add: sent1_def transmit_events w1_def)
    have ev2: "events (snd sent2) = events (snd sent1) @ [Send ClientSock line (sendResultAt (snd sent1) 0 (length line))]"
      by (simp add: sent2_def transmit_events)
    have unfold: "mdbRows rowIndex w =
        (if line = [LF] then (True, w1)
         else if fst sent1 < 0 then (False, snd sent1)
         else if fst sent2 < 0 then (False, snd sent2)
         else mdbRows (rowIndex + 1) (snd sent2))"
      by (subst mdbRows.simps) (simp add: Some a Let_def w1_def line_def sent1_def sent2_def)
    consider "line = [LF]" | "line \<noteq> [LF]" "fst sent1 < 0"
      | "line \<noteq> [LF]" "\<not> fst sent1 < 0" "fst sent2 < 0"
      | "line \<noteq> [LF]" "\<not> fst sent1 < 0" "\<not> fst sent2 < 0"
      by blast
    then show ?thesis
    proof cases
      case 1
      then show ?thesis by (simp add: unfold w1_def)
    next
      case 2
      then show ?thesis by (simp add: unfold ev1)
    next
      case 3
      then show ?thesis by (simp add: unfold ev1 ev2)
    next
      case 4
      have "\<exists>es. events (snd (mdbRows (rowIndex + 1) (snd sent2))) = events (snd sent2) @ es \<and>
          list_all isClientSend es"
        using 4 by (intro "1.IH" [OF Some a [symmetric]])
          (simp_all add: w1_def line_def sent1_def sent2_def)
      then show ?thesis
        using 4 by (auto simp add: unfold ev1 ev2)
    qed
  qed
qed

lemma sendResultAt_ok: "sendsOk w \<Longrightarrow> sendResultAt w k n = int n"
proof (cases "drop k (sendScript w)")
  case Nil
  then show ?thesis by (simp add: sendResultAt_def send_result_def)
next
  case (Cons out outs)
  then have "out \<in> set (sendScript w)"
    by (metis in_set_dropD list.set_intros(1))
  moreover assume "sendsOk w"
  ultimately have "out = SendAll"
    by (simp add: sendsOk_def list_all_iff)
  with Cons show ?thesis by (simp add: sendResultAt_def send_result_def)
qed

lemma transmit_script [simp]:
  "sendScript (snd (transmit s buf w)) = drop 1 (sendScript w)"
  by (simp add: transmit_def send_def Let_def)

lemma sendHttpStatus_script [simp]:
  "sendScript (sendHttpStatus code w) = drop 1 (sendScript w)"
  by (simp add: sendHttpStatus_def Let_def)

lemma sendResultAt_later:
  "sendScript w' = drop j (sendScript w) \<Longrightarrow> sendResultAt w' k n = sendResultAt w (k + j) n"
  by (simp add: sendResultAt_def)


lemma transmit_fst:
  "fst (transmit s buf w) =
     (if sendResultAt w 0 (length buf) = int (length buf) then int (length buf) else - 1)"
  by (simp add: transmit_def send_def sendResultAt_def Let_def)

lemma transmit_failed:
  "(fst (transmit s buf w) < 0) = (sendResultAt w 0 (length buf) \<noteq> int (length buf))"
  by (simp add: transmit_fst)

lemma sendHttpStatus_ok: "sendsOk w \<Longrightarrow> sendsOk (sendHttpStatus code w)"
  by (simp add: sendHttpStatus_def Let_def transmit_ok_facts)

lemma strncmp_eq_prefix: "strncmp_eq s p (length p) = prefix p s"
  by (auto simp: strncmp_eq_def prefix_def) (metis append_eq_conv_conj)

lemma fmt_d_200: "fmt_d 200 = ''200''"
  by (simp add: fmt_d_def dec_of_nat.simps digit_char_def)

lemma statusResponse_200: "statusResponse 200 = ''HTTP/1.0 200 OK'' @ [CR, LF, CR, LF]"
  by (simp add: statusResponse_def fmt_d_200 getStatusMessage_def HttpStatusCodes_def)

lemma mdbLookup_trace:
  "\<exists>es. events (snd (mdbLookup uri w)) = events w @ es \<and>
        prefix (sentTo MdbSock es) [drop (length keyURI) uri, [LF]] \<and>
        (sendsOk w \<longrightarrow> delivered MdbSock es = drop (length keyURI) uri @ [LF])"
proof -
  define key where "key = drop (length keyURI) uri"
  define sent1 where "sent1 = transmit MdbSock key w"
  define sent2 where "sent2 = transmit MdbSock [LF] (snd sent1)"
  define sent3 where "sent3 = transmit ClientSock tableStart (snd sent2)"
  define rows where "rows = mdbRows 1 (snd sent3)"
  define sent4 where "sent4 = transmit ClientSock tableEnd (snd rows)"
  define r1 where "r1 = sendResultAt w 0 (length key)"
  define r2 where "r2 = sendResultAt (snd sent1) 0 1"
  define r3 where "r3 = sendResultAt (snd sent2) 0 (length tableStart)"
  define r4 where "r4 = sendResultAt (snd rows) 0 (length tableEnd)"
  have ev1: "events (snd sent1) = events w @ [Send MdbSock key r1]"
    by (simp add: sent1_def r1_def transmit_events)
  have ev2: "events (snd sent2) = events w @ [Send MdbSock key r1, Send MdbSock [LF] r2]"
    by (simp add: sent2_def r2_def transmit_events ev1)
  have ev3: "events (snd sent3) =
      events w @ [Send MdbSock key r1, Send MdbSock [LF] r2, Send ClientSock tableStart r3]"
    by (simp add: sent3_def r3_def transmit_events ev2)
  obtain es where evr: "events (snd rows) = events (snd sent3) @ es" and es: "list_all isClientSend es"
    unfolding rows_def using mdbRows_client_only by blast
  have ev4: "events (snd sent4) = events (snd rows) @ [Send ClientSock tableEnd r4]"
    by (simp add: sent4_def r4_def transmit_events)
  have ok: "r1 = int (length key) \<and> r2 = 1" if "sendsOk w"
  proof -
    have "sendsOk (snd sent1)"
      unfolding sent1_def using that by (rule transmit_ok_facts)
    then show ?thesis
      using that by (simp add: r1_def r2_def sendResultAt_ok)
  qed
  have f1: "(fst sent1 < 0) = (r1 \<noteq> int (length key))"
    by (simp add: sent1_def r1_def transmit_failed)
  have f2: "(fst sent2 < 0) = (r2 \<noteq> 1)"
    by (simp add: sent2_def r2_def transmit_failed)
  have unfold: "mdbLookup uri w =
      (if fst sent1 < 0 then (False, snd sent1)
       else if fst sent2 < 0 then (False, snd sent2)
       else if fst sent3 < 0 then (False, snd sent3)
       else if \<not> fst rows then (False, snd rows)
       else if fst sent4 < 0 then (False, snd sent4)
       else (True, snd sent4))"
    by (simp add: mdbLookup_def Let_def key_def sent1_def sent2_def sent3_def rows_def sent4_def)
  have quiet: "sentTo MdbSock es = []" "delivered MdbSock es = []"
    using clientSends_silent [OF es] by simp_all
  show ?thesis
    unfolding key_def [symmetric] unfold
    using ok by (auto simp add: ev1 ev2 ev3 evr ev4 quiet f1 f2)
qed

lemma processMdbRequest_start:
  "events (snd (transmit ClientSock form (sendHttpStatus 200 w))) =
     events w @
     [Send ClientSock (''HTTP/1.0 200 OK'' @ [CR, LF, CR, LF]) (sendResultAt w 0 19),
      Send ClientSock form (sendResultAt w 1 (length form))]"
proof -
  have len: "length (statusResponse 200) = 19"
    by (simp add: statusResponse_200)
  have "events (sendHttpStatus 200 w) =
      events w @ [Send ClientSock (''HTTP/1.0 200 OK'' @ [CR, LF, CR, LF]) (sendResultAt w 0 19)]"
    unfolding sendHttpStatus_events len unfolding statusResponse_200 ..
  then show ?thesis
    using sendResultAt_later [of "sendHttpStatus 200 w" 1 w 0 "length form"]
    by (simp add: transmit_events)
qed

lemma processMdbRequest_form_failed:
  "(fst (transmit ClientSock form (sendHttpStatus 200 w)) < 0) =
     (sendResultAt w 1 (length form) \<noteq> int (length form))"
  using sendResultAt_later [of "sendHttpStatus 200 w" 1 w 0]
  by (simp add: transmit_failed)

text \<open>
  Claim C7. A URI that begins with \<open>/mdb-lookup\<close> is routed to \<open>processMdbRequest\<close>,
  and the handler returns 200. Its first call of \<open>send\<close> hands the status response
  \<open>HTTP/1.0 200 OK\<close> to the client, its second the search form, whatever the first one
  returned. When the URI does not begin with \<open>/mdb-lookup?key=\<close>, the only event that
  follows is the end of the page, sent when the form could be written: no table is sent
  and nothing is written to the backend connection.
\<close>

theorem mdb_route_sends_form:
  assumes "prefix mdbRequestURI uri"
  shows "\<exists>w' es.
           routeRequest rootDirectory uri w = Inr (200, w') \<and>
           events w' =
             events w @
             [Send ClientSock (''HTTP/1.0 200 OK'' @ [CR, LF, CR, LF]) (sendResultAt w 0 19),
              Send ClientSock form (sendResultAt w 1 (length form))] @ es \<and>
           (\<not> prefix keyURI uri \<longrightarrow>
              es = (if sendResultAt w 1 (length form) = int (length form)
                    then [Send ClientSock pageEnd (sendResultAt w 2 (length pageEnd))]
                    else []))"
proof -
  define sent1 where "sent1 = transmit ClientSock form (sendHttpStatus 200 w)"
  have route: "routeRequest rootDirectory uri w = Inr (processMdbRequest uri w)"
    using assms by (simp add: routeRequest_def strncmp_eq_prefix)
  have ev1: "events (snd sent1) =
      events w @
      [Send ClientSock (''HTTP/1.0 200 OK'' @ [CR, LF, CR, LF]) (sendResultAt w 0 19),
       Send ClientSock form (sendResultAt w 1 (length form))]"
    unfolding sent1_def by (rule processMdbRequest_start)
  have f1: "(fst sent1 < 0) = (sendResultAt w 1 (length form) \<noteq> int (length form))"
    unfolding sent1_def by (rule processMdbRequest_form_failed)
  have script1: "sendScript (snd sent1) = drop 2 (sendScript w)"
    by (simp add: sent1_def numeral_2_eq_2)
  show ?thesis
  proof (cases "fst sent1 < 0")
    case True
    then have "processMdbRequest uri w = (200, snd sent1)"
      by (simp add: processMdbRequest_def Let_def sent1_def)
    then show ?thesis
      using True ev1 f1 by (simp add: route)
  next
    case False
    show ?thesis
    proof (cases "prefix keyURI uri")
      case True
      obtain es where es: "events (snd (mdbLookup uri (snd sent1))) = events (snd sent1) @ es"
        using mdbLookup_trace by blast
      have "processMdbRequest uri w =
          (if \<not> fst (mdbLookup uri (snd sent1)) then (200, snd (mdbLookup uri (snd sent1)))
           else (200, snd (transmit ClientSock pageEnd (snd (mdbLookup uri (snd sent1))))))"
        using False True
        by (simp add: processMdbRequest_def Let_def sent1_def strncmp_eq_prefix)
      then show ?thesis
        using True by (auto simp add: route es ev1 transmit_events)
    next
      case nokey: False
      have "processMdbRequest uri w = (200, snd (transmit ClientSock pageEnd (snd sent1)))"
        using False nokey
        by (simp add: processMdbRequest_def Let_def sent1_def strncmp_eq_prefix)
      then show ?thesis
        using False f1 sendResultAt_later [OF script1, of 0 "length pageEnd"]
        by (simp add: route ev1 transmit_events numeral_2_eq_2)
    qed
  qed
qed

theorem mdb_route_sends_form_witness:
  "\<exists>w'. routeRequest ''/www'' ''/mdb-lookup'' (backendWorld [] []) = Inr (200, w') \<and>
        events w' =
          [Send ClientSock (''HTTP/1.0 200 OK'' @ [CR, LF, CR, LF]) 19,
           Send ClientSock form (int (length form)),
           Send ClientSock pageEnd (int (length pageEnd))]"
  using mdb_route_sends_form [of "''/mdb-lookup''" "''/www''" "backendWorld [] []"]
  by (auto simp add: mdbRequestURI_def keyURI_def backendWorld_def sendResultAt_def
      send_result_def)

text \<open>
  Claim C8. For a URI that begins with \<open>/mdb-lookup?key=\<close>, the buffers that the handler
  hands to \<open>send\<close> on the backend connection are, in this order, the rest of the URI
  behind that prefix, unchanged, and a single line feed: never anything else, and never
  more. While the calls of \<open>send\<close> succeed, the bytes that the backend connection takes
  are exactly that key followed by the line feed. (When the form cannot be written to the
  client, or a write to the backend fails, the handler stops: then it is a prefix of the
  two buffers that has been handed over.)
\<close>

theorem lookup_key_written_to_backend:
  assumes "prefix keyURI uri"
  shows "(\<exists>es. events (snd (processMdbRequest uri w)) = events w @ es \<and>
               prefix (sentTo MdbSock es) [drop (length keyURI) uri, [LF]]) \<and>
         (sendsOk w \<longrightarrow>
            delivered MdbSock (events (snd (processMdbRequest uri w))) =
              delivered MdbSock (events w) @ drop (length keyURI) uri @ [LF])"
proof -
  define sent1 where "sent1 = transmit ClientSock form (sendHttpStatus 200 w)"
  define looked where "looked = mdbLookup uri (snd sent1)"
  have ev1: "events (snd sent1) =
      events w @
      [Send ClientSock (''HTTP/1.0 200 OK'' @ [CR, LF, CR, LF]) (sendResultAt w 0 19),
       Send ClientSock form (sendResultAt w 1 (length form))]"
    unfolding sent1_def by (rule processMdbRequest_start)
  have ok1: "sendsOk (snd sent1) \<and> \<not> fst sent1 < 0" if "sendsOk w"
    unfolding sent1_def using that
    by (simp add: transmit_ok_facts sendHttpStatus_ok)
  obtain es where es: "events (snd looked) = events (snd sent1) @ es"
    and sent: "prefix (sentTo MdbSock es) [drop (length keyURI) uri, [LF]]"
    and del: "sendsOk (snd sent1) \<longrightarrow> delivered MdbSock es = drop (length keyURI) uri @ [LF]"
    unfolding looked_def using mdbLookup_trace by blast
  have unfold: "processMdbRequest uri w =
      (if fst sent1 < 0 then (200, snd sent1)
       else if \<not> fst looked then (200, snd looked)
       else (200, snd (transmit ClientSock pageEnd (snd looked))))"
    using assms
    by (simp add: processMdbRequest_def Let_def sent1_def looked_def strncmp_eq_prefix)
  show ?thesis
    unfolding unfold using ok1 sent del
    by (auto simp add: ev1 es transmit_events)
qed

theorem lookup_key_written_to_backend_witness:
  "delivered MdbSock
     (events (snd (processMdbRequest ''/mdb-lookup?key=al%20ice''
        (backendWorld (''alice,555-1234'' @ [LF] @ [LF]) [])))) =
     ''al%20ice'' @ [LF]"
  using lookup_key_written_to_backend
    [of "''/mdb-lookup?key=al%20ice''" "backendWorld (''alice,555-1234'' @ [LF] @ [LF]) []"]
  by (simp add: keyURI_def sendsOk_def backendWorld_def)

text \<open>
  Claim C10. \<open>processMdbRequest\<close> returns 200 for every URI and in every world: whatever
  the calls of \<open>send\<close> return and wherever the backend's stream ends. The loop over the
  reply is a total function, so the handler returns.
\<close>

theorem processMdbRequest_returns_200:
  "fst (processMdbRequest requestURI w) = 200"
  by (simp add: processMdbRequest_def Let_def)

subsection \<open>The file handler\<close>

lemma sendFile_client_only:
  "\<exists>es. events (sendFile content w) = events w @ es \<and> list_all isClientSend es"
proof (induction content w rule: sendFile.induct)
  case (1 content w)
  define buffer where "buffer = take BUFFER_SIZE content"
  define sent where "sent = send ClientSock buffer w"
  have ev: "events (snd sent) = events w @ [Send ClientSock buffer (sendResultAt w 0 (length buffer))]"
    by (simp add: sent_def send_events)
  have unfold: "sendFile content w =
      (if length buffer > 0
       then (if fst sent \<noteq> int (length buffer) then snd sent
             else sendFile (drop BUFFER_SIZE content) (snd sent))
       else w)"
    by (subst sendFile.simps) (simp add: Let_def buffer_def sent_def)
  consider "length buffer = 0" | "length buffer > 0" "fst sent \<noteq> int (length buffer)"
    | "length buffer > 0" "fst sent = int (length buffer)"
    by blast
  then show ?case
  proof cases
    case 1
    then show ?thesis by (simp add: unfold)
  next
    case 2
    then show ?thesis by (simp add: unfold ev)
  next
    case 3
    have "\<exists>es. events (sendFile (drop BUFFER_SIZE content) (snd sent)) = events (snd sent) @ es \<and>
        list_all isClientSend es"
      using 3 by (intro "1.IH") (simp_all add: buffer_def sent_def)
    then show ?thesis
      using 3 by (auto simp add: unfold ev)
  qed
qed

lemma sendFile_ok:
  "sendsOk w \<Longrightarrow>
     delivered ClientSock (events (sendFile content w)) = delivered ClientSock (events w) @ content"
proof (induction content w rule: sendFile.induct)
  case (1 content w)
  define buffer where "buffer = take BUFFER_SIZE content"
  define sent where "sent = send ClientSock buffer w"
  have sent: "sent = (int (length buffer),
      w\<lparr>sendScript := drop 1 (sendScript w),
        events := events w @ [Send ClientSock buffer (int (length buffer))]\<rparr>)"
    unfolding sent_def using "1.prems" by (rule send_ok)
  have ok: "sendsOk (snd sent)"
    using "1.prems" by (simp add: sent sendsOk_drop)
  have unfold: "sendFile content w =
      (if length buffer > 0
       then (if fst sent \<noteq> int (length buffer) then snd sent
             else sendFile (drop BUFFER_SIZE content) (snd sent))
       else w)"
    by (subst sendFile.simps) (simp add: Let_def buffer_def sent_def)
  show ?case
  proof (cases "length buffer > 0")
    case False
    then have "content = []"
      by (simp add: buffer_def BUFFER_SIZE_def)
    moreover have "sendFile content w = w"
      using False by (simp add: unfold)
    ultimately show ?thesis by simp
  next
    case True
    have "delivered ClientSock (events (sendFile (drop BUFFER_SIZE content) (snd sent))) =
        delivered ClientSock (events (snd sent)) @ drop BUFFER_SIZE content"
      unfolding sent_def buffer_def
    proof (rule "1.IH" [OF refl refl _ refl])
      show "0 < length (take BUFFER_SIZE content)"
        using True by (simp add: buffer_def)
      show "\<not> fst (send ClientSock (take BUFFER_SIZE content) w) \<noteq>
          int (length (take BUFFER_SIZE content))"
        using sent unfolding sent_def buffer_def by simp
      show "sendsOk (snd (send ClientSock (take BUFFER_SIZE content) w))"
        using ok unfolding sent_def buffer_def .
    qed
    moreover have "delivered ClientSock (events (snd sent)) =
        delivered ClientSock (events w) @ buffer"
      by (simp add: sent)
    ultimately show ?thesis
      using True by (simp add: unfold sent buffer_def)
  qed
qed

text \<open>
  Claim C6. The file handler is given a URI that is not empty (the caller has checked
  that it begins with \<open>/\<close>), and the allocation of the path buffer succeeds. The path
  it resolves is the web root followed by the URI, followed by \<open>index.html\<close> when the
  URI ends in \<open>/\<close>. The handler calls \<open>stat\<close> on that path; when it is a directory
  it sends the response for 403 and returns 403. Otherwise it calls \<open>fopen\<close>; when the
  file cannot be opened it sends the response for 404 and returns 404, and otherwise it
  sends the response for 200 and returns 200. One status response is sent, for the code
  that is returned; what may follow it (for 200 only) are calls of \<open>send\<close> on the client
  socket with the content of the file.
\<close>

theorem processFileRequest_status:
  fixes webRoot requestURI :: string and w :: world
  defines "filePath \<equiv>
             webRoot @ requestURI @ (if last requestURI = CHR ''/'' then ''index.html'' else [])"
  defines "code \<equiv>
             (if statIsDir w filePath then 403
              else if fopenRb w filePath = None then 404 else (200 :: int))"
  assumes "mallocOk w" and "requestURI \<noteq> []"
  shows "\<exists>w' es.
           processFileRequest webRoot requestURI w = Inr (code, w') \<and>
           events w' =
             events w @
             (if statIsDir w filePath then [Stat filePath] else [Stat filePath, Fopen filePath]) @
             [Send ClientSock (statusResponse code)
                (sendResultAt w 0 (length (statusResponse code)))] @
             es \<and>
           list_all isClientSend es \<and>
           (code \<noteq> 200 \<longrightarrow> es = [])"
proof -
  have path: "(if last (webRoot @ requestURI) = CHR ''/''
               then (webRoot @ requestURI) @ ''index.html'' else webRoot @ requestURI) = filePath"
    using assms(4) by (simp add: filePath_def)
  have unfold: "processFileRequest webRoot requestURI w =
      (if statIsDir w filePath
       then Inr (403, sendHttpStatus 403 (w\<lparr>events := events w @ [Stat filePath]\<rparr>))
       else case fopenRb w filePath of
              None \<Rightarrow>
                Inr (404, sendHttpStatus 404
                            (w\<lparr>events := events w @ [Stat filePath, Fopen filePath]\<rparr>))
            | Some content \<Rightarrow>
                Inr (200, sendFile content
                            (sendHttpStatus 200
                               (w\<lparr>events := events w @ [Stat filePath, Fopen filePath]\<rparr>))))"
    using assms(3,4) unfolding processFileRequest_def Let_def path
    by (simp split: option.splits)
  have res: "sendResultAt (w\<lparr>events := es\<rparr>) k n = sendResultAt w k n" for es k n
    by (simp add: sendResultAt_def)
  show ?thesis
  proof (cases "statIsDir w filePath")
    case True
    then show ?thesis
      by (simp add: unfold code_def sendHttpStatus_events res)
  next
    case False
    show ?thesis
    proof (cases "fopenRb w filePath")
      case None
      with False show ?thesis
        by (simp add: unfold code_def sendHttpStatus_events res)
    next
      case (Some content)
      obtain es where
        "events (sendFile content
            (sendHttpStatus 200 (w\<lparr>events := events w @ [Stat filePath, Fopen filePath]\<rparr>))) =
          events (sendHttpStatus 200 (w\<lparr>events := events w @ [Stat filePath, Fopen filePath]\<rparr>)) @ es"
        and "list_all isClientSend es"
        using sendFile_client_only by blast
      with False Some show ?thesis
        by (simp add: unfold code_def sendHttpStatus_events res)
    qed
  qed
qed

theorem processFileRequest_status_witness:
  "(\<exists>w'. processFileRequest ''/www'' ''/pub'' (fileWorld [] ''/www/index.html'' ''hello'' []) =
           Inr (403, w') \<and>
         events w' =
           [Stat ''/www/pub'',
            Send ClientSock (statusResponse 403) (int (length (statusResponse 403)))]) \<and>
   (\<exists>w'. processFileRequest ''/www'' ''/missing.html''
           (fileWorld [] ''/www/index.html'' ''hello'' []) = Inr (404, w') \<and>
         events w' =
           [Stat ''/www/missing.html'', Fopen ''/www/missing.html'',
            Send ClientSock (statusResponse 404) (int (length (statusResponse 404)))]) \<and>
   (\<exists>w' es. processFileRequest ''/www'' ''/'' (fileWorld [] ''/www/index.html'' ''hello'' []) =
           Inr (200, w') \<and>
         events w' =
           [Stat ''/www/index.html'', Fopen ''/www/index.html'',
            Send ClientSock (statusResponse 200) (int (length (statusResponse 200)))] @ es \<and>
         list_all isClientSend es)"
  using
    processFileRequest_status [where webRoot = "''/www''" and requestURI = "''/pub''"
      and w = "fileWorld [] ''/www/index.html'' ''hello'' []"]
    processFileRequest_status [where webRoot = "''/www''" and requestURI = "''/missing.html''"
      and w = "fileWorld [] ''/www/index.html'' ''hello'' []"]
    processFileRequest_status [where webRoot = "''/www''" and requestURI = "''/''"
      and w = "fileWorld [] ''/www/index.html'' ''hello'' []"]
  by (simp add: fileWorld_def sendResultAt_def send_result_def)

text \<open>
  Claim C5. When the handler opens a file and every call of \<open>send\<close> takes its whole
  buffer, the bytes that the client receives are the response for 200 (the status line
  and the blank line) followed by the content of the file, byte for byte and nothing
  else, whatever the length of the file: the examples that follow are a file of 0 bytes,
  of 1 byte, and of 4097 bytes (one chunk of 4096 bytes and one more byte).
\<close>

theorem served_file_is_copied:
  fixes webRoot requestURI :: string and w :: world
  defines "filePath \<equiv>
             webRoot @ requestURI @ (if last requestURI = CHR ''/'' then ''index.html'' else [])"
  assumes "mallocOk w" and "requestURI \<noteq> []"
    and "\<not> statIsDir w filePath" and "fopenRb w filePath = Some content"
    and "sendsOk w"
  shows "\<exists>w'. processFileRequest webRoot requestURI w = Inr (200, w') \<and>
              delivered ClientSock (events w') =
                delivered ClientSock (events w) @
                ''HTTP/1.0 200 OK'' @ [CR, LF, CR, LF] @ content"
proof -
  define w2 where "w2 = w\<lparr>events := events w @ [Stat filePath, Fopen filePath]\<rparr>"
  have path: "(if last (webRoot @ requestURI) = CHR ''/''
               then (webRoot @ requestURI) @ ''index.html'' else webRoot @ requestURI) = filePath"
    using assms(3) by (simp add: filePath_def)
  have unfold: "processFileRequest webRoot requestURI w =
      Inr (200, sendFile content (sendHttpStatus 200 w2))"
    using assms(2-5) unfolding processFileRequest_def Let_def path
    by (simp add: w2_def)
  have ok2: "sendsOk w2"
    using assms(6) by (simp add: w2_def sendsOk_def)
  then have ok3: "sendsOk (sendHttpStatus 200 w2)"
    by (rule sendHttpStatus_ok)
  have len: "length (statusResponse 200) = 19"
    by (simp add: statusResponse_200)
  have "events (sendHttpStatus 200 w2) =
      events w2 @ [Send ClientSock (statusResponse 200) 19]"
    unfolding sendHttpStatus_events len sendResultAt_ok [OF ok2] by simp
  then have "delivered ClientSock (events (sendHttpStatus 200 w2)) =
      delivered ClientSock (events w) @ ''HTTP/1.0 200 OK'' @ [CR, LF, CR, LF]"
    by (simp add: w2_def statusResponse_200)
  then show ?thesis
    unfolding unfold using sendFile_ok [OF ok3, of content] by simp
qed

theorem served_file_is_copied_witness:
  "(\<exists>w'. processFileRequest ''/www'' ''/'' (fileWorld [] ''/www/index.html'' [] []) = Inr (200, w') \<and>
         delivered ClientSock (events w') = ''HTTP/1.0 200 OK'' @ [CR, LF, CR, LF]) \<and>
   (\<exists>w'. processFileRequest ''/www'' ''/a'' (fileWorld [] ''/www/a'' ''x'' []) = Inr (200, w') \<and>
         delivered ClientSock (events w') = ''HTTP/1.0 200 OK'' @ [CR, LF, CR, LF] @ ''x'') \<and>
   (\<exists>w'. processFileRequest ''/www'' ''/b'' (fileWorld [] ''/www/b'' (replicate 4097 (CHR ''x'')) []) =
           Inr (200, w') \<and>
         delivered ClientSock (events w') =
           ''HTTP/1.0 200 OK'' @ [CR, LF, CR, LF] @ replicate 4097 (CHR ''x''))"
  using
    served_file_is_copied [where webRoot = "''/www''" and requestURI = "''/''"
      and w = "fileWorld [] ''/www/index.html'' [] []" and content = "[]"]
    served_file_is_copied [where webRoot = "''/www''" and requestURI = "''/a''"
      and w = "fileWorld [] ''/www/a'' ''x'' []" and content = "''x''"]
    served_file_is_copied [where webRoot = "''/www''" and requestURI = "''/b''"
      and w = "fileWorld [] ''/www/b'' (replicate 4097 (CHR ''x'')) []"
      and content = "replicate 4097 (CHR ''x'')"]
  by (simp add: fileWorld_def sendsOk_def)

subsection \<open>The request parser and the dispatcher\<close>

lemma splitTokens_skip:
  "splitTokens ds [] s = splitTokens ds [] (dropWhile (\<lambda>c. c \<in> set ds) s)"
  by (induction s) auto

lemma splitTokens_token:
  "splitTokens ds cur s =
     (if cur @ takeWhile (\<lambda>c. c \<notin> set ds) s = [] then []
      else [cur @ takeWhile (\<lambda>c. c \<notin> set ds) s]) @
     splitTokens ds [] (drop 1 (dropWhile (\<lambda>c. c \<notin> set ds) s))"
  by (induction s arbitrary: cur) auto

lemma tokens_Nil [simp]: "tokens [] = []"
  by (simp add: tokens_def)

lemma strtok_tokens_both:
  "fst (strtok delimiters s) = (case tokens s of [] \<Rightarrow> None | t # ts \<Rightarrow> Some t) \<and>
   tokens (snd (strtok delimiters s)) = tl (tokens s)"
proof -
  define s' where "s' = dropWhile (\<lambda>c. c \<in> set delimiters) s"
  have toks: "tokens s = splitTokens delimiters [] s'"
    unfolding tokens_def s'_def by (rule splitTokens_skip)
  show ?thesis
  proof (cases "s' = []")
    case True
    then show ?thesis
      by (simp add: toks strtok_def Let_def flip: s'_def)
  next
    case False
    then have "hd s' \<notin> set delimiters"
      unfolding s'_def using hd_dropWhile by metis
    with False have tw: "takeWhile (\<lambda>c. c \<notin> set delimiters) s' \<noteq> []"
      by (cases s') simp_all
    have "tokens s =
        takeWhile (\<lambda>c. c \<notin> set delimiters) s' #
        tokens (drop 1 (dropWhile (\<lambda>c. c \<notin> set delimiters) s'))"
      unfolding toks unfolding tokens_def
      by (subst splitTokens_token [of delimiters "[]" s']) (simp add: tw)
    with False show ?thesis
      by (simp add: strtok_def Let_def flip: s'_def)
  qed
qed

lemma strtok_tokens:
  "fst (strtok delimiters s) = (case tokens s of [] \<Rightarrow> None | t # ts \<Rightarrow> Some t)"
  "tokens (snd (strtok delimiters s)) = tl (tokens s)"
  using strtok_tokens_both [of s] by simp_all


lemma handleConnection_three_tokens:
  assumes "fgets 1000 (clientIn w0) = Some (buf, rest)"
    and "tokens (c_str buf) = [httpMethod, uri, version]"
  shows "handleConnection rootDirectory w0 =
           (let w = w0\<lparr>clientIn := rest\<rparr>
            in if httpMethod \<noteq> ''GET''
               then Inr (501, loop_end (sendHttpStatus 501 w))
               else if version \<noteq> ''HTTP/1.0'' \<and> version \<noteq> ''HTTP/1.1''
               then Inr (501, loop_end (sendHttpStatus 501 w))
               else if (case uri of [] \<Rightarrow> True | c # _ \<Rightarrow> c \<noteq> CHR ''/'')
               then Inr (400, loop_end (sendHttpStatus 400 w))
               else if traversal uri
               then Inr (400, loop_end (sendHttpStatus 400 w))
               else
                 (let skipped = skipHeaders w
                  in if \<not> fst skipped then Inr (400, loop_end (snd skipped))
                     else
                       (case routeRequest rootDirectory uri (snd skipped) of
                          Inl e \<Rightarrow> Inl e
                        | Inr (statusCode, w') \<Rightarrow> Inr (statusCode, loop_end w'))))"
  unfolding handleConnection_def assms(1)
  by (simp only: Let_def strtok_tokens assms(2) option.case prod.case list.case list.sel)




lemma fgets_request_line:
  "LF \<notin> set l \<Longrightarrow> length l \<le> 998 \<Longrightarrow>
     fgets 1000 (clientIn (fileWorld (l @ LF # rest) path content script)) =
       Some (l @ [LF], rest)"
  by (simp add: fileWorld_def fgets_line)

lemma skipHeaders_end: "clientIn w = [] \<Longrightarrow> skipHeaders w = (False, w)"
  by (subst skipHeaders.simps) (simp add: fgets_def)

lemma no_request_line_outcome:
  "clientIn w = [] \<Longrightarrow>
     outcome (handleConnection rootDirectory w) = Some (400, events w @ [CloseClient])"
  by (simp add: handleConnection_def fgets_def outcome_def loop_end_def)

lemma headers_cut_short_outcome:
  assumes "fgets 1000 (clientIn w) = Some (buf, [])"
    and "tokens (c_str buf) = [''GET'', uri, version]"
    and "version = ''HTTP/1.0'' \<or> version = ''HTTP/1.1''"
    and "prefix ''/'' uri" and "\<not> traversal uri"
  shows "outcome (handleConnection rootDirectory w) = Some (400, events w @ [CloseClient])"
proof -
  have "skipHeaders (w\<lparr>clientIn := []\<rparr>) = (False, w\<lparr>clientIn := []\<rparr>)"
    by (rule skipHeaders_end) simp
  moreover obtain u where "uri = CHR ''/'' # u"
    using assms(4) by (auto simp: prefix_def)
  ultimately show ?thesis
    using assms(3,5)
    by (subst handleConnection_three_tokens [OF assms(1,2)])
      (auto simp add: Let_def outcome_def loop_end_def)
qed







lemma fileWorld_simps [simp]:
  "clientIn (fileWorld request path content script) = request"
  "events (fileWorld request path content script) = []"
  "sendResultAt (fileWorld request path content []) k n = int n"
  "(fileWorld request path content script)\<lparr>clientIn := r\<rparr> = fileWorld r path content script"
  by (simp_all add: fileWorld_def sendResultAt_def send_result_def)
















text \<open>
  Claim C1 says that every rejection sends its status response before the connection is
  closed, also when no request line can be read and when the stream ends inside the
  headers. At these two places the source sets \<open>statusCode = 400\<close> and jumps to
  \<open>loop_end\<close> without the call of \<open>sendHttpStatus\<close> that every other rejection makes.
  The code at two such streams, the empty one and one that ends behind the request line:
  the status is 400, and the trace is the close alone, nothing is sent.
\<close>

theorem no_response_at_end_of_stream:
  "outcome (handleConnection ''/www'' (fileWorld [] ''/www/index.html'' ''hello'' [])) =
     Some (400, [CloseClient]) \<and>
   outcome (handleConnection ''/www''
      (fileWorld (''GET / HTTP/1.0'' @ [CR, LF]) ''/www/index.html'' ''hello'' [])) =
     Some (400, [CloseClient])"
proof -
  have fg: "fgets 1000 (clientIn (fileWorld (''GET / HTTP/1.0'' @ [CR, LF])
      ''/www/index.html'' ''hello'' [])) = Some (''GET / HTTP/1.0'' @ [CR, LF], [])"
    using fgets_request_line [of "''GET / HTTP/1.0'' @ [CR]" "[]"] by simp
  have t: "tokens (c_str (''GET / HTTP/1.0'' @ [CR, LF])) = [''GET'', ''/'', ''HTTP/1.0'']"
    by (simp add: tokens_def c_str_def delimiters_def)
  have nt: "\<not> traversal ''/''"
    by (simp add: traversal_def)
  have ev: "events (fileWorld request path content []) = []" for request path content
    by (simp add: fileWorld_def)
  have "clientIn (fileWorld [] ''/www/index.html'' ''hello'' []) = []"
    by (simp add: fileWorld_def)
  then show ?thesis
    using no_request_line_outcome [of "fileWorld [] ''/www/index.html'' ''hello'' []" "''/www''"]
      headers_cut_short_outcome [OF fg t _ _ nt, of "''/www''"]
    by (simp add: ev)
qed

end
